theory Spec2Isabelle
  imports Complex_Main "HOL-Library.Log_Nat" "HOL-Library.Monad_Syntax" "HOL-Library.Word"
begin

section \<open>Python floats as rationals\<close>

text \<open>
  A Python float is an IEEE 754 binary64 number. The finite ones are rationals, and every
  arithmetic operation of the language returns the exact result rounded to the nearest
  binary64 number, ties to the even significand. A float is modelled by the rational it
  denotes and an operation by the exact operation followed by \<open>rne\<close>. Infinities and
  NaN have no counterpart here: the channel values of the program are 8-bit, which keeps
  every intermediate result far below the overflow threshold. An operation that raises
  a Python exception returns \<open>None\<close>.
\<close>

definition ilog2 :: "rat \<Rightarrow> int" where
  \<comment> \<open>for \<open>0 < x\<close>: the integer \<open>l\<close> with \<open>2^l \<le> x < 2^(l+1)\<close>\<close>
  "ilog2 x = (if 1 \<le> x then bitlen \<lfloor>x\<rfloor> - 1 else - bitlen (\<lceil>1 / x\<rceil> - 1))"

definition pow2 :: "int \<Rightarrow> rat" where
  "pow2 e = (if 0 \<le> e then 2 ^ nat e else 1 / 2 ^ nat (- e))"

definition round_half_even :: "rat \<Rightarrow> int" where
  "round_half_even q =
     (let f = \<lfloor>q\<rfloor>; r = q - of_int f in
      if r < 1 / 2 then f
      else if 1 / 2 < r then f + 1
      else if even f then f else f + 1)"

definition rne :: "rat \<Rightarrow> rat" where
  \<comment> \<open>53 significant bits; the unit in the last place is never below \<open>2^-1074\<close>\<close>
  "rne x =
     (if x = 0 then 0
      else let s = pow2 (max (ilog2 \<bar>x\<bar> - 52) (- 1074))
           in of_int (round_half_even (x / s)) * s)"

definition lit :: "rat \<Rightarrow> rat" where
  \<comment> \<open>a decimal literal of the source text, read as a float\<close>
  "lit d = rne d"

definition float_of_int :: "int \<Rightarrow> rat" where
  \<comment> \<open>the implicit conversion of an int operand in mixed arithmetic\<close>
  "float_of_int i = rne (of_int i)"

definition fadd :: "rat \<Rightarrow> rat \<Rightarrow> rat" where
  "fadd x y = rne (x + y)"

definition fsub :: "rat \<Rightarrow> rat \<Rightarrow> rat" where
  "fsub x y = rne (x - y)"

definition fmul :: "rat \<Rightarrow> rat \<Rightarrow> rat" where
  "fmul x y = rne (x * y)"

definition fdiv :: "rat \<Rightarrow> rat \<Rightarrow> rat option" where
  \<comment> \<open>\<open>x / y\<close> on floats; ZeroDivisionError when \<open>y\<close> is zero\<close>
  "fdiv x y = (if y = 0 then None else Some (rne (x / y)))"

definition int_truediv :: "int \<Rightarrow> int \<Rightarrow> rat option" where
  \<comment> \<open>\<open>a / b\<close> on ints: the correctly rounded quotient\<close>
  "int_truediv a b = (if b = 0 then None else Some (rne (of_int a / of_int b)))"

definition py_int :: "rat \<Rightarrow> int" where
  \<comment> \<open>\<open>int(x)\<close> truncates towards zero\<close>
  "py_int x = (if 0 \<le> x then \<lfloor>x\<rfloor> else \<lceil>x\<rceil>)"

definition float_pow :: "(rat \<Rightarrow> rat \<Rightarrow> rat) \<Rightarrow> rat \<Rightarrow> rat \<Rightarrow> rat option" where
  \<comment> \<open>\<open>x ** y\<close> on finite floats. CPython settles the special cases itself, in this
      order, and leaves the rest to \<open>pow\<close> of the platform's C library, the parameter
      \<open>pw\<close>, taken to return a finite value. \<open>0.0\<close> to a negative power raises
      ZeroDivisionError. A negative base with a fractional exponent gives a complex
      number, on which the \<open>max\<close>, \<open>min\<close> and \<open>>=\<close> of the callers raise
      TypeError; with an integral exponent the power of the absolute value is taken and
      negated when the exponent is odd.\<close>
  "float_pow pw x y =
     (if y = 0 then Some 1
      else if x = 0 then (if y < 0 then None else Some 0)
      else if x < 0 then
        (if of_int \<lfloor>y\<rfloor> \<noteq> y then None
         else let r = (if - x = 1 then 1 else pw (- x) y)
              in Some (if odd \<lfloor>y\<rfloor> then - r else r))
      else if x = 1 then Some 1
      else Some (pw x y))"

section \<open>Color math helpers\<close>

type_synonym color = "int \<times> int \<times> int"

definition linearize :: "(rat \<Rightarrow> rat \<Rightarrow> rat) \<Rightarrow> int \<Rightarrow> rat option" where
  "linearize pw c = do {
     c' \<leftarrow> fdiv (float_of_int c) (lit 255);
     if c' \<le> lit (3928 / 100000) then fdiv c' (lit (1292 / 100))
     else do {
       t \<leftarrow> fdiv (fadd c' (lit (55 / 1000))) (lit (1055 / 1000));
       float_pow pw t (lit (24 / 10))
     }
   }"

fun relative_luminance :: "(rat \<Rightarrow> rat \<Rightarrow> rat) \<Rightarrow> color \<Rightarrow> rat option" where
  "relative_luminance pw (r, g, b) = do {
     lr \<leftarrow> linearize pw r;
     lg \<leftarrow> linearize pw g;
     lb \<leftarrow> linearize pw b;
     Some (fadd (fadd (fmul (lit (2126 / 10000)) lr) (fmul (lit (7152 / 10000)) lg))
                (fmul (lit (722 / 10000)) lb))
   }"

definition contrast_ratio :: "(rat \<Rightarrow> rat \<Rightarrow> rat) \<Rightarrow> color \<Rightarrow> color \<Rightarrow> rat option" where
  "contrast_ratio pw c1 c2 = do {
     l1 \<leftarrow> relative_luminance pw c1;
     l2 \<leftarrow> relative_luminance pw c2;
     let lighter = max l1 l2;
     let darker = min l1 l2;
     fdiv (fadd lighter (lit (5 / 100))) (fadd darker (lit (5 / 100)))
   }"

fun color_distance :: "(rat \<Rightarrow> rat \<Rightarrow> rat) \<Rightarrow> color \<Rightarrow> color \<Rightarrow> rat option" where
  "color_distance pw (r1, g1, b1) (r2, g2, b2) = do {
     rmean \<leftarrow> int_truediv (r1 + r2) 2;
     let dr = r1 - r2;
     let dg = g1 - g2;
     let db = b1 - b2;
     w1 \<leftarrow> fdiv rmean (float_of_int 256);
     w3 \<leftarrow> fdiv (fsub (float_of_int 255) rmean) (float_of_int 256);
     float_pow pw
       (fadd (fadd (fmul (fadd (float_of_int 2) w1) (float_of_int (dr ^ 2)))
                   (float_of_int (4 * dg ^ 2)))
             (fmul (fadd (float_of_int 2) w3) (float_of_int (db ^ 2))))
       (lit (5 / 10))
   }"

fun brightness :: "color \<Rightarrow> rat" where
  "brightness (r, g, b) =
     fadd (fadd (fmul (lit (299 / 1000)) (float_of_int r)) (fmul (lit (587 / 1000)) (float_of_int g)))
          (fmul (lit (114 / 1000)) (float_of_int b))"

definition quantize_channel :: "int \<Rightarrow> int \<Rightarrow> int" where
  "quantize_channel step c = min 255 ((c div step) * step + step div 2)"

fun quantize :: "color \<Rightarrow> color" where
  \<comment> \<open>called with the default \<open>step=24\<close> only\<close>
  "quantize (r, g, b) =
     (let step = 24 in (quantize_channel step r, quantize_channel step g, quantize_channel step b))"

section \<open>Histogram\<close>

text \<open>
  \<open>Counter(xs)\<close> is a dict: it keeps its keys in the order of their first insertion.
  \<open>most_common()\<close> sorts the items by count with \<open>sorted(..., reverse=True)\<close>,
  which is stable: items of equal count stay in insertion order. \<open>sort_key\<close> is a
  stable insertion sort, so sorting by the negated count gives the same list.
\<close>

fun count_elem :: "'a \<Rightarrow> ('a \<times> nat) list \<Rightarrow> ('a \<times> nat) list" where
  "count_elem x [] = [(x, 1)]"
| "count_elem x ((k, n) # kns) = (if k = x then (k, n + 1) # kns else (k, n) # count_elem x kns)"

definition Counter :: "'a list \<Rightarrow> ('a \<times> nat) list" where
  "Counter xs = foldl (\<lambda>m x. count_elem x m) [] xs"

definition most_common :: "('a \<times> nat) list \<Rightarrow> ('a \<times> nat) list" where
  "most_common counts = sort_key (\<lambda>kn. - int (snd kn)) counts"

section \<open>Core extraction\<close>

definition passes ::
  "(rat \<Rightarrow> rat \<Rightarrow> rat) \<Rightarrow> rat \<Rightarrow> rat \<Rightarrow> color \<Rightarrow> color \<Rightarrow> bool option" where
  \<comment> \<open>the loop condition; \<open>and\<close> evaluates its right operand only when the left holds\<close>
  "passes pw min_c min_d primary color = do {
     cr \<leftarrow> contrast_ratio pw primary color;
     if min_c \<le> cr then do {
       d \<leftarrow> color_distance pw primary color;
       Some (min_d \<le> d)
     } else Some False
   }"

fun scan ::
  "(rat \<Rightarrow> rat \<Rightarrow> rat) \<Rightarrow> rat \<Rightarrow> rat \<Rightarrow> color \<Rightarrow> color list \<Rightarrow> color option option" where
  \<comment> \<open>one \<open>for\<close> loop over \<open>ranked[1:]\<close> with its \<open>break\<close>; the inner \<open>None\<close> is
      Python's \<open>secondary is None\<close>, the outer one an exception\<close>
  "scan pw min_c min_d primary [] = Some None"
| "scan pw min_c min_d primary (color # rest) = do {
     ok \<leftarrow> passes pw min_c min_d primary color;
     if ok then Some (Some color) else scan pw min_c min_d primary rest
   }"

definition select_secondary ::
  "(rat \<Rightarrow> rat \<Rightarrow> rat) \<Rightarrow> rat \<Rightarrow> int \<Rightarrow> color \<Rightarrow> color list \<Rightarrow> color option" where
  "select_secondary pw min_contrast min_distance primary rest = do {
     strict \<leftarrow> scan pw min_contrast (of_int min_distance) primary rest;
     relaxed \<leftarrow> (case strict of
                   None \<Rightarrow> scan pw (lit 2) (fmul (float_of_int min_distance) (lit (5 / 10))) primary rest
                 | Some c \<Rightarrow> Some (Some c));
     Some (case relaxed of
             None \<Rightarrow> if 127 < brightness primary then (30, 30, 30) else (230, 230, 230)
           | Some c \<Rightarrow> c)
   }"

definition assign_roles :: "color \<Rightarrow> color \<Rightarrow> color \<times> color" where
  \<comment> \<open>(foreground, background)\<close>
  "assign_roles primary secondary =
     (if brightness secondary \<le> brightness primary then (primary, secondary)
      else (secondary, primary))"

definition darken_channel :: "int \<Rightarrow> int" where
  "darken_channel c = max 0 (py_int (fmul (float_of_int c) (lit (75 / 100))))"

fun darken :: "color \<Rightarrow> color" where
  "darken (r, g, b) = (darken_channel r, darken_channel g, darken_channel b)"

definition hex_digit :: "nat \<Rightarrow> char" where
  "hex_digit d = ''0123456789abcdef'' ! d"

fun hex_nat :: "nat \<Rightarrow> string" where
  "hex_nat n = (if n < 16 then [hex_digit n] else hex_nat (n div 16) @ [hex_digit (n mod 16)])"

definition format_02x :: "int \<Rightarrow> string" where
  \<comment> \<open>the format spec \<open>02x\<close>: lowercase hexadecimal, zero-padded to width 2, the sign
      counting towards the width\<close>
  "format_02x x =
     (if x < 0 then CHR ''-'' # hex_nat (nat (- x))
      else let ds = hex_nat (nat x) in replicate (2 - length ds) CHR ''0'' @ ds)"

fun format_color :: "color \<Rightarrow> string" where
  "format_color (r, g, b) = ''0xff'' @ format_02x r @ format_02x g @ format_02x b"

definition extract_colors ::
  "(rat \<Rightarrow> rat \<Rightarrow> rat) \<Rightarrow> color list \<Rightarrow> rat \<Rightarrow> int \<Rightarrow> (string \<times> string) option" where
  \<comment> \<open>\<open>pixels\<close> is \<open>img.getdata()\<close> of the converted and resized image\<close>
  "extract_colors pw pixels min_contrast min_distance =
     (let quantized = map quantize pixels;
          counts = Counter quantized;
          ranked = most_common counts
      in case ranked of
           [] \<Rightarrow> Some (''0xff888888'', ''0xff222222'')
         | (primary, _) # others \<Rightarrow> do {
             secondary \<leftarrow> select_secondary pw min_contrast min_distance primary (map fst others);
             let (foreground, background) = assign_roles primary secondary;
             let background = darken background;
             Some (format_color foreground, format_color background)
           })"

definition extract_colors_default :: "(rat \<Rightarrow> rat \<Rightarrow> rat) \<Rightarrow> color list \<Rightarrow> (string \<times> string) option" where
  \<comment> \<open>the call of the command line: \<open>min_contrast=3.0\<close>, \<open>min_distance=80\<close>\<close>
  "extract_colors_default pw pixels = extract_colors pw pixels (lit 3) 80"

section \<open>Image sampler\<close>

text \<open>
  Lines 85 to 88 of \<open>extract_colors\<close> call the imaging library:
  \<open>Image.open(image_path).convert("RGB")\<close>, \<open>img.resize((80, 80))\<close> and
  \<open>img.getdata()\<close>. The library is not part of the repository. Its decoder, its
  conversion to the mode RGB and its resampling filter are parameters; an image of the
  mode RGB holds one triple of bytes per pixel.
\<close>

type_synonym rgb8 = "8 word \<times> 8 word \<times> 8 word"

record image =
  width :: nat
  height :: nat
  data :: "rgb8 list"

record 'raw pil =
  open_image :: "string \<Rightarrow> 'raw option"
  convert_rgb :: "'raw \<Rightarrow> image"
  resample :: "image \<Rightarrow> nat \<times> nat \<Rightarrow> nat \<times> nat \<Rightarrow> rgb8"

definition resize :: "'raw pil \<Rightarrow> image \<Rightarrow> nat \<times> nat \<Rightarrow> image" where
  \<comment> \<open>Modelled from the spec: \<open>Image.resize\<close> of the imaging library, which is not
      under src/. The image is resized to a grid of the requested width and height, one
      resampled pixel per cell, row by row.\<close>
  "resize lib img wh =
     (case wh of (w, h) \<Rightarrow>
        \<lparr>width = w, height = h,
         data = concat (map (\<lambda>y. map (\<lambda>x. resample lib img (w, h) (x, y)) [0..<w]) [0..<h])\<rparr>)"

definition getdata :: "image \<Rightarrow> color list" where
  \<comment> \<open>Modelled from the spec: \<open>Image.getdata\<close> of the imaging library, which is not
      under src/. The sequence of the pixels, each a triple of ints in 0..255.\<close>
  "getdata img = map (\<lambda>(r, g, b). (uint r, uint g, uint b)) (data img)"

definition extract_colors_of_path ::
  "'raw pil \<Rightarrow> (rat \<Rightarrow> rat \<Rightarrow> rat) \<Rightarrow> string \<Rightarrow> rat \<Rightarrow> int \<Rightarrow> (string \<times> string) option" where
  \<comment> \<open>the whole function: lines 85 and 86, then \<open>extract_colors\<close> above on the
      sampled pixels; a file that cannot be opened or decoded raises\<close>
  "extract_colors_of_path lib pw image_path min_contrast min_distance =
     (case open_image lib image_path of
        None \<Rightarrow> None
      | Some raw \<Rightarrow>
          (let img = convert_rgb lib raw;
               img = resize lib img (80, 80)
           in extract_colors pw (getdata img) min_contrast min_distance))"

definition sample_pil :: "unit pil" where
  \<comment> \<open>a stand-in for the imaging library with which hypotheses are instantiated: every
      file decodes to one black pixel, and resampling repeats the first pixel\<close>
  "sample_pil =
     \<lparr>open_image = (\<lambda>p. Some ()),
      convert_rgb = (\<lambda>u. \<lparr>width = 1, height = 1, data = [(0, 0, 0)]\<rparr>),
      resample = (\<lambda>img wh xy. hd (data img))\<rparr>"

definition valid_channel :: "int \<Rightarrow> bool" where
  \<comment> \<open>an 8-bit channel intensity, as \<open>convert("RGB")\<close> delivers it\<close>
  "valid_channel c \<longleftrightarrow> 0 \<le> c \<and> c \<le> 255"

fun valid_color :: "color \<Rightarrow> bool" where
  "valid_color (r, g, b) \<longleftrightarrow> valid_channel r \<and> valid_channel g \<and> valid_channel b"

definition libm_ok :: "(rat \<Rightarrow> rat \<Rightarrow> rat) \<Rightarrow> bool" where
  \<comment> \<open>what is assumed of the platform's \<open>pow\<close>: a positive base never gives a
      negative result\<close>
  "libm_ok pw \<longleftrightarrow> (\<forall>x y. 0 < x \<longrightarrow> 0 \<le> pw x y)"

definition sample_pow :: "rat \<Rightarrow> rat \<Rightarrow> rat" where
  \<comment> \<open>a stand-in for the platform's \<open>pow\<close> with which the assumption is instantiated\<close>
  "sample_pow x y = rne (x * x)"

section \<open>The selection policy in the words of the specification\<close>

definition meets ::
  "(rat \<Rightarrow> rat \<Rightarrow> rat) \<Rightarrow> rat \<Rightarrow> rat \<Rightarrow> color \<Rightarrow> color \<Rightarrow> bool" where
  \<comment> \<open>\<open>contrast_ratio(primary, candidate) \<ge> min_c\<close> AND
      \<open>color_distance(primary, candidate) \<ge> min_d\<close>, both having a value\<close>
  "meets pw min_c min_d primary candidate \<longleftrightarrow>
     (case contrast_ratio pw primary candidate of
        None \<Rightarrow> False
      | Some cr \<Rightarrow> min_c \<le> cr \<and>
          (case color_distance pw primary candidate of None \<Rightarrow> False | Some d \<Rightarrow> min_d \<le> d))"

definition spec_secondary :: "(rat \<Rightarrow> rat \<Rightarrow> rat) \<Rightarrow> color \<Rightarrow> color list \<Rightarrow> color" where
  \<comment> \<open>the three tiers as a chain of first-match searches over the same candidates, in
      their ranked order: strict (3.0 and 80), relaxed (2.0 and 40), synthetic\<close>
  "spec_secondary pw primary candidates =
     (case find (meets pw 3 80 primary) candidates of
        Some c \<Rightarrow> c
      | None \<Rightarrow>
          (case find (meets pw 2 40 primary) candidates of
             Some c \<Rightarrow> c
           | None \<Rightarrow> if 127 < brightness primary then (30, 30, 30) else (230, 230, 230)))"

section \<open>Properties of the rounding\<close>

lemma pow2_powi: "pow2 e = 2 powi e"
  by (simp add: pow2_def power_int_def inverse_eq_divide power_one_over)

lemma pow2_pos: "0 < pow2 e"
  by (simp add: pow2_powi)

lemma pow2_add: "pow2 (a + b) = pow2 a * pow2 b"
  by (simp add: pow2_powi power_int_add)

lemma pow2_mono: "a \<le> b \<Longrightarrow> pow2 a \<le> pow2 b"
  by (simp add: pow2_powi power_int_increasing)

lemma pow2_less_cancel: "pow2 a < pow2 b \<Longrightarrow> a < b"
  using pow2_mono [of b a] by (cases "a < b") auto

lemma pow2_nat: "0 \<le> e \<Longrightarrow> pow2 e = of_int (2 ^ nat e)"
  by (simp add: pow2_def)

lemma bitlen_pos: "0 < m \<Longrightarrow> 1 \<le> bitlen m"
  by (simp add: bitlen_alt_def log_less_zero_cancel_iff zero_le_log_cancel_iff)

lemma pow2_neg: "0 \<le> k \<Longrightarrow> pow2 (- k) = 1 / 2 ^ nat k"
  by (simp add: pow2_powi power_int_minus_divide power_int_nonneg_exp)

lemma ilog2_lower:
  assumes "0 < x"
  shows "pow2 (ilog2 x) \<le> x"
proof (cases "1 \<le> x")
  case True
  then have m: "0 < \<lfloor>x\<rfloor>" by simp
  have b: "1 \<le> bitlen \<lfloor>x\<rfloor>" using m by (rule bitlen_pos)
  from bitlen_bounds [OF m] have "2 ^ nat (bitlen \<lfloor>x\<rfloor> - 1) \<le> \<lfloor>x\<rfloor>" by simp
  then have "(of_int (2 ^ nat (bitlen \<lfloor>x\<rfloor> - 1)) :: rat) \<le> of_int \<lfloor>x\<rfloor>"
    by (simp only: of_int_le_iff)
  then have "(2 :: rat) ^ nat (bitlen \<lfloor>x\<rfloor> - 1) \<le> of_int \<lfloor>x\<rfloor>" by simp
  moreover have "of_int \<lfloor>x\<rfloor> \<le> x" by simp
  ultimately have "2 ^ nat (bitlen \<lfloor>x\<rfloor> - 1) \<le> x" by (rule order_trans)
  then show ?thesis
    using True b by (simp add: ilog2_def pow2_def)
next
  case False
  define y where "y = 1 / x"
  define m where "m = \<lceil>y\<rceil>"
  from False assms have y: "1 < y" by (simp add: y_def)
  then have "1 < m" unfolding m_def by (simp add: less_ceiling_iff)
  then have m1: "0 < m - 1" by simp
  have k: "1 \<le> bitlen (m - 1)" using m1 by (rule bitlen_pos)
  from bitlen_bounds [OF m1] have "m - 1 < 2 ^ nat (bitlen (m - 1))" by simp
  then have "m \<le> 2 ^ nat (bitlen (m - 1))" by simp
  then have "(of_int m :: rat) \<le> of_int (2 ^ nat (bitlen (m - 1)))"
    by (simp only: of_int_le_iff)
  then have "(of_int m :: rat) \<le> 2 ^ nat (bitlen (m - 1))" by simp
  moreover have "y \<le> of_int m" unfolding m_def by (rule le_of_int_ceiling)
  ultimately have "y \<le> 2 ^ nat (bitlen (m - 1))" by (rule order_trans [rotated])
  then have "1 / 2 ^ nat (bitlen (m - 1)) \<le> x"
    using assms by (simp add: y_def field_simps)
  moreover have "ilog2 x = - bitlen (m - 1)"
    using False by (simp add: ilog2_def m_def y_def)
  ultimately show ?thesis using k by (simp add: pow2_neg)
qed

lemma ilog2_upper:
  assumes "0 < x"
  shows "x < pow2 (ilog2 x + 1)"
proof (cases "1 \<le> x")
  case True
  then have m: "0 < \<lfloor>x\<rfloor>" by simp
  have b: "1 \<le> bitlen \<lfloor>x\<rfloor>" using m by (rule bitlen_pos)
  from bitlen_bounds [OF m] have "\<lfloor>x\<rfloor> + 1 \<le> 2 ^ nat (bitlen \<lfloor>x\<rfloor>)" by simp
  then have "(of_int (\<lfloor>x\<rfloor> + 1) :: rat) \<le> of_int (2 ^ nat (bitlen \<lfloor>x\<rfloor>))"
    by (simp only: of_int_le_iff)
  then have "(of_int (\<lfloor>x\<rfloor> + 1) :: rat) \<le> 2 ^ nat (bitlen \<lfloor>x\<rfloor>)" by simp
  moreover have "x < of_int (\<lfloor>x\<rfloor> + 1)" by linarith
  ultimately have "x < 2 ^ nat (bitlen \<lfloor>x\<rfloor>)" by (rule order_less_le_trans [rotated])
  then show ?thesis
    using True b by (simp add: ilog2_def pow2_def)
next
  case False
  define y where "y = 1 / x"
  define m where "m = \<lceil>y\<rceil>"
  from False assms have y: "1 < y" by (simp add: y_def)
  then have "1 < m" unfolding m_def by (simp add: less_ceiling_iff)
  then have m1: "0 < m - 1" by simp
  have k: "1 \<le> bitlen (m - 1)" using m1 by (rule bitlen_pos)
  from bitlen_bounds [OF m1] have "2 ^ nat (bitlen (m - 1) - 1) \<le> m - 1" by simp
  then have "(of_int (2 ^ nat (bitlen (m - 1) - 1)) :: rat) \<le> of_int (m - 1)"
    by (simp only: of_int_le_iff)
  then have "(2 :: rat) ^ nat (bitlen (m - 1) - 1) \<le> of_int (m - 1)" by simp
  moreover have "of_int (m - 1) < y" unfolding m_def by linarith
  ultimately have "2 ^ nat (bitlen (m - 1) - 1) < y" by (rule order_le_less_trans)
  then have "x < 1 / 2 ^ nat (bitlen (m - 1) - 1)"
    using assms by (simp add: y_def field_simps)
  moreover have "ilog2 x = - bitlen (m - 1)"
    using False by (simp add: ilog2_def m_def y_def)
  moreover have "pow2 (- (bitlen (m - 1) - 1)) = 1 / 2 ^ nat (bitlen (m - 1) - 1)"
    using k by (intro pow2_neg) simp
  ultimately show ?thesis by (simp add: algebra_simps)
qed


lemma round_half_even_of_int: "round_half_even (of_int n) = n"
  by (simp add: round_half_even_def)

lemma round_half_even_ge: "of_int n \<le> q \<Longrightarrow> n \<le> round_half_even q"
proof -
  assume "of_int n \<le> q"
  then have "n \<le> \<lfloor>q\<rfloor>" by (simp add: le_floor_iff)
  then show ?thesis by (simp add: round_half_even_def Let_def)
qed

lemma rne_zero: "rne 0 = 0"
  by (simp add: rne_def)

lemma rne_nonneg: "0 \<le> x \<Longrightarrow> 0 \<le> rne x"
proof -
  assume x: "0 \<le> x"
  show ?thesis
  proof (cases "x = 0")
    case True
    then show ?thesis by (simp add: rne_def)
  next
    case False
    define s where "s = pow2 (max (ilog2 \<bar>x\<bar> - 52) (- 1074))"
    have s: "0 < s" unfolding s_def by (rule pow2_pos)
    with x have "of_int 0 \<le> x / s" by simp
    then have "0 \<le> round_half_even (x / s)" by (rule round_half_even_ge)
    with s False show ?thesis by (simp add: rne_def s_def [symmetric] Let_def)
  qed
qed

lemma rne_ge_pow2:
  assumes k: "- 1022 \<le> k" and x: "pow2 k \<le> x"
  shows "pow2 k \<le> rne x"
proof -
  have xpos: "0 < x" using x pow2_pos [of k] by simp
  define l where "l = ilog2 \<bar>x\<bar>"
  define e where "e = max (l - 52) (- 1074)"
  have "pow2 k < pow2 (l + 1)"
    using x ilog2_upper [of x] xpos by (simp add: l_def)
  then have kl: "k \<le> l" using pow2_less_cancel [of k "l + 1"] by simp
  then have el: "e \<le> l" using k by (simp add: e_def)
  have "pow2 l \<le> x" using ilog2_lower [of x] xpos by (simp add: l_def)
  moreover have "pow2 l = pow2 (l - e) * pow2 e" using pow2_add [of "l - e" e] by simp
  ultimately have "pow2 (l - e) \<le> x / pow2 e"
    using pow2_pos [of e] by (simp add: field_simps)
  then have "of_int (2 ^ nat (l - e)) \<le> x / pow2 e"
    using el by (simp add: pow2_nat)
  then have "2 ^ nat (l - e) \<le> round_half_even (x / pow2 e)"
    by (rule round_half_even_ge)
  then have "(of_int (2 ^ nat (l - e)) :: rat) \<le> of_int (round_half_even (x / pow2 e))"
    by (simp only: of_int_le_iff)
  then have "pow2 (l - e) \<le> of_int (round_half_even (x / pow2 e))"
    using el by (simp add: pow2_nat)
  then have "pow2 (l - e) * pow2 e \<le> of_int (round_half_even (x / pow2 e)) * pow2 e"
    using pow2_pos [of e] by simp
  then have "pow2 l \<le> rne x"
    using xpos pow2_add [of "l - e" e] by (simp add: rne_def e_def l_def Let_def)
  moreover have "pow2 k \<le> pow2 l" using kl by (rule pow2_mono)
  ultimately show ?thesis by simp
qed

lemma rne_exact:
  assumes m: "\<bar>m\<bar> < 2 ^ 53" and j: "- 1074 \<le> j"
  shows "rne (of_int m * pow2 j) = of_int m * pow2 j"
proof (cases "m = 0")
  case True
  then show ?thesis by (simp add: rne_def)
next
  case False
  define x where "x = of_int m * pow2 j"
  define l where "l = ilog2 \<bar>x\<bar>"
  define e where "e = max (l - 52) (- 1074)"
  have x0: "x \<noteq> 0" using False pow2_pos [of j] by (simp add: x_def)
  have "\<bar>x\<bar> = of_int \<bar>m\<bar> * pow2 j"
    using pow2_pos [of j] by (simp add: x_def abs_mult)
  moreover have "(of_int \<bar>m\<bar> :: rat) < of_int (2 ^ 53)" using m by (simp only: of_int_less_iff)
  ultimately have "\<bar>x\<bar> < pow2 53 * pow2 j"
    using pow2_pos [of j] by (simp add: pow2_def)
  then have "\<bar>x\<bar> < pow2 (53 + j)" by (simp add: pow2_add)
  moreover have "pow2 l \<le> \<bar>x\<bar>" using ilog2_lower [of "\<bar>x\<bar>"] x0 by (simp add: l_def)
  ultimately have "pow2 l < pow2 (53 + j)" by simp
  then have "l < 53 + j" by (rule pow2_less_cancel)
  then have ej: "e \<le> j" using j by (simp add: e_def)
  have "pow2 j = pow2 (j - e) * pow2 e" using pow2_add [of "j - e" e] by simp
  then have "x / pow2 e = of_int m * pow2 (j - e)"
    using pow2_pos [of e] by (simp add: x_def)
  also have "\<dots> = of_int (m * 2 ^ nat (j - e))" using ej by (simp add: pow2_nat)
  finally have "round_half_even (x / pow2 e) = m * 2 ^ nat (j - e)"
    by (simp only: round_half_even_of_int)
  then have "rne x = of_int (m * 2 ^ nat (j - e)) * pow2 e"
    using x0 by (simp add: rne_def e_def l_def Let_def)
  also have "\<dots> = of_int m * (pow2 (j - e) * pow2 e)" using ej by (simp add: pow2_nat)
  also have "\<dots> = x" using pow2_add [of "j - e" e] by (simp add: x_def)
  finally show ?thesis by (simp add: x_def)
qed

lemma rne_of_int: "\<bar>m\<bar> < 2 ^ 53 \<Longrightarrow> rne (of_int m) = of_int m"
  using rne_exact [of m 0] by (simp add: pow2_def)

section \<open>The color math never raises on 8-bit colors\<close>

lemma float_of_int_exact: "\<bar>i\<bar> < 2 ^ 53 \<Longrightarrow> float_of_int i = of_int i"
  by (simp add: float_of_int_def rne_of_int)

lemma lit_255: "lit 255 = 255"
  using rne_of_int [of 255] by (simp add: lit_def)

lemma lit_2: "lit 2 = 2"
  using rne_of_int [of 2] by (simp add: lit_def)

lemma lit_3: "lit 3 = 3"
  using rne_of_int [of 3] by (simp add: lit_def)

lemma lit_half: "lit (5 / 10) = 1 / 2"
  using rne_exact [of 1 "- 1"] by (simp add: lit_def pow2_def)

lemma lit_three_quarters: "lit (75 / 100) = 3 / 4"
  using rne_exact [of 3 "- 2"] by (simp add: lit_def pow2_def)

lemma lit_ge_pow2: "- 1022 \<le> k \<Longrightarrow> pow2 k \<le> d \<Longrightarrow> pow2 k \<le> lit d"
  unfolding lit_def by (rule rne_ge_pow2)

lemma lit_1292: "8 \<le> lit (1292 / 100)"
  using lit_ge_pow2 [of 3 "1292 / 100"] by (simp add: pow2_def)

lemma lit_055: "1 / 32 \<le> lit (55 / 1000)"
  using lit_ge_pow2 [of "- 5" "55 / 1000"] by (simp add: pow2_def)

lemma lit_005: "1 / 32 \<le> lit (5 / 100)"
  using lit_ge_pow2 [of "- 5" "5 / 100"] by (simp add: pow2_def)

lemma lit_24: "2 \<le> lit (24 / 10)"
  using lit_ge_pow2 [of 1 "24 / 10"] by (simp add: pow2_def)

lemma lit_03928: "0 \<le> lit (3928 / 100000)"
  unfolding lit_def by (rule rne_nonneg) simp

lemma lit_1055: "lit (1055 / 1000) = 4751297606875873 / 4503599627370496"
  by code_simp

lemma rne_pos: "1 / 2 ^ 64 \<le> x \<Longrightarrow> 0 < rne x"
proof -
  assume "1 / 2 ^ 64 \<le> x"
  then have "pow2 (- 64) \<le> rne x"
    using rne_ge_pow2 [of "- 64" x] by (simp add: pow2_def)
  then show ?thesis using pow2_pos [of "- 64"] by simp
qed

lemma linearize_cases:
  "\<exists>c'. fdiv (float_of_int c) (lit 255) = Some c' \<and>
     (linearize pw c = fdiv c' (lit (1292 / 100)) \<and> c' \<le> lit (3928 / 100000) \<or>
      (\<exists>t. 0 < t \<and> linearize pw c = Some (if t = 1 then 1 else pw t (lit (24 / 10)))))"
proof -
  define c' where "c' = rne (float_of_int c / 255)"
  have c': "fdiv (float_of_int c) (lit 255) = Some c'"
    by (simp add: fdiv_def lit_255 c'_def)
  show ?thesis
  proof (cases "c' \<le> lit (3928 / 100000)")
    case True
    then show ?thesis using c' by (simp add: linearize_def)
  next
    case False
    with lit_03928 have "0 < c'" by simp
    then have "1 / 32 \<le> c' + lit (55 / 1000)" using lit_055 by simp
    then have "pow2 (- 5) \<le> fadd c' (lit (55 / 1000))"
      unfolding fadd_def by (intro rne_ge_pow2) (simp_all add: pow2_def)
    then have a: "1 / 32 \<le> fadd c' (lit (55 / 1000))" by (simp add: pow2_def)
    define t where "t = rne (fadd c' (lit (55 / 1000)) / lit (1055 / 1000))"
    have "1 / 2 ^ 64 \<le> fadd c' (lit (55 / 1000)) / lit (1055 / 1000)"
      using a lit_1055 by (simp add: field_simps)
    then have t: "0 < t" unfolding t_def by (rule rne_pos)
    have "fdiv (fadd c' (lit (55 / 1000))) (lit (1055 / 1000)) = Some t"
      using lit_1055 by (simp add: fdiv_def t_def)
    moreover have "float_pow pw t (lit (24 / 10)) = Some (if t = 1 then 1 else pw t (lit (24 / 10)))"
      using t lit_24 by (simp add: float_pow_def)
    ultimately have "linearize pw c = Some (if t = 1 then 1 else pw t (lit (24 / 10)))"
      using False c' by (simp add: linearize_def)
    with t c' show ?thesis by blast
  qed
qed

lemma linearize_total: "\<exists>l. linearize pw c = Some l"
proof -
  have "lit (1292 / 100) \<noteq> 0" using lit_1292 by auto
  then show ?thesis using linearize_cases [of c pw] by (auto simp: fdiv_def)
qed

lemma linearize_nonneg:
  assumes "libm_ok pw" and "0 \<le> c" and "\<bar>c\<bar> < 2 ^ 53" and "linearize pw c = Some l"
  shows "0 \<le> l"
proof -
  from linearize_cases [of c pw] obtain c' where
    c': "fdiv (float_of_int c) (lit 255) = Some c'" and
    alt: "linearize pw c = fdiv c' (lit (1292 / 100)) \<or>
      (\<exists>t. 0 < t \<and> linearize pw c = Some (if t = 1 then 1 else pw t (lit (24 / 10))))"
    by blast
  have "c' = rne (of_int c / 255)"
    using c' assms(3) by (simp add: fdiv_def lit_255 float_of_int_exact)
  then have c'0: "0 \<le> c'" using assms(2) by (simp add: rne_nonneg)
  from alt show ?thesis
  proof
    assume "linearize pw c = fdiv c' (lit (1292 / 100))"
    moreover have "0 < lit (1292 / 100)" using lit_1292 by simp
    ultimately have "l = rne (c' / lit (1292 / 100))"
      using assms(4) by (simp add: fdiv_def)
    then show ?thesis using c'0 \<open>0 < lit (1292 / 100)\<close> by (simp add: rne_nonneg)
  next
    assume "\<exists>t. 0 < t \<and> linearize pw c = Some (if t = 1 then 1 else pw t (lit (24 / 10)))"
    then obtain t where "0 < t" "l = (if t = 1 then 1 else pw t (lit (24 / 10)))"
      using assms(4) by auto
    then show ?thesis using assms(1) by (auto simp: libm_ok_def)
  qed
qed


lemma fmul_nonneg: "0 \<le> x \<Longrightarrow> 0 \<le> y \<Longrightarrow> 0 \<le> fmul x y"
  by (simp add: fmul_def rne_nonneg)

lemma fadd_nonneg: "0 \<le> x \<Longrightarrow> 0 \<le> y \<Longrightarrow> 0 \<le> fadd x y"
  by (simp add: fadd_def rne_nonneg)

lemma lit_nonneg: "0 \<le> d \<Longrightarrow> 0 \<le> lit d"
  by (simp add: lit_def rne_nonneg)

lemma valid_channel_small: "valid_channel c \<Longrightarrow> \<bar>c\<bar> < 2 ^ 53"
  by (simp add: valid_channel_def)

lemma relative_luminance_total: "\<exists>l. relative_luminance pw c = Some l"
proof (cases c)
  case (fields r g b)
  obtain lr lg lb where "linearize pw r = Some lr" "linearize pw g = Some lg"
    "linearize pw b = Some lb"
    using linearize_total by blast
  then show ?thesis using fields by simp
qed

lemma relative_luminance_nonneg:
  assumes "libm_ok pw" and "valid_color c" and "relative_luminance pw c = Some l"
  shows "0 \<le> l"
proof (cases c)
  case (fields r g b)
  obtain lr lg lb where l: "linearize pw r = Some lr" "linearize pw g = Some lg"
    "linearize pw b = Some lb"
    using linearize_total by blast
  have v: "valid_channel r" "valid_channel g" "valid_channel b"
    using assms(2) fields by simp_all
  have "0 \<le> lr" "0 \<le> lg" "0 \<le> lb"
    using linearize_nonneg [OF assms(1) _ _ l(1)] linearize_nonneg [OF assms(1) _ _ l(2)]
      linearize_nonneg [OF assms(1) _ _ l(3)] v valid_channel_small
    by (simp_all add: valid_channel_def)
  then have "0 \<le> fadd (fadd (fmul (lit (2126 / 10000)) lr) (fmul (lit (7152 / 10000)) lg))
                (fmul (lit (722 / 10000)) lb)"
    by (intro fadd_nonneg fmul_nonneg lit_nonneg) simp_all
  then show ?thesis using assms(3) fields l by simp
qed

lemma contrast_ratio_total:
  assumes "libm_ok pw" and "valid_color c1" and "valid_color c2"
  shows "\<exists>cr. contrast_ratio pw c1 c2 = Some cr"
proof -
  obtain l1 l2 where l: "relative_luminance pw c1 = Some l1" "relative_luminance pw c2 = Some l2"
    using relative_luminance_total by blast
  have "0 \<le> l1" "0 \<le> l2"
    using relative_luminance_nonneg assms l by blast+
  then have "0 \<le> min l1 l2" by simp
  moreover have "(1 :: rat) / 2 ^ 64 \<le> 1 / 32" by simp
  ultimately have "1 / 2 ^ 64 \<le> min l1 l2 + lit (5 / 100)" using lit_005 by linarith
  then have "0 < fadd (min l1 l2) (lit (5 / 100))" unfolding fadd_def by (rule rne_pos)
  then show ?thesis using l by (simp add: contrast_ratio_def fdiv_def Let_def)
qed

lemma contrast_ratio_same:
  assumes "libm_ok pw" and "valid_color c"
  shows "contrast_ratio pw c c = Some 1"
proof -
  obtain l where l: "relative_luminance pw c = Some l"
    using relative_luminance_total by blast
  have "0 \<le> l" using relative_luminance_nonneg assms l by blast
  moreover have "(1 :: rat) / 2 ^ 64 \<le> 1 / 32" by simp
  ultimately have "1 / 2 ^ 64 \<le> l + lit (5 / 100)" using lit_005 by linarith
  then have "0 < fadd l (lit (5 / 100))" unfolding fadd_def by (rule rne_pos)
  moreover have "rne 1 = 1" using rne_of_int [of 1] by simp
  ultimately show ?thesis using l by (simp add: contrast_ratio_def fdiv_def Let_def)
qed


lemma float_pow_half_nonneg:
  "0 \<le> x \<Longrightarrow> \<exists>d. float_pow pw x (lit (5 / 10)) = Some d"
  using lit_half by (simp add: float_pow_def)

lemma float_pow_half_zero: "float_pow pw 0 (lit (5 / 10)) = Some 0"
  using lit_half by (simp add: float_pow_def)

lemma float_of_int_nonneg: "0 \<le> i \<Longrightarrow> 0 \<le> float_of_int i"
  by (simp add: float_of_int_def rne_nonneg)

lemma float_of_int_zero: "float_of_int 0 = 0"
  by (simp add: float_of_int_def rne_zero)

lemma rmean_exact:
  assumes "valid_channel r1" and "valid_channel r2"
  shows "int_truediv (r1 + r2) 2 = Some (of_int (r1 + r2) / 2)"
proof -
  have "\<bar>r1 + r2\<bar> < 2 ^ 53" using assms by (simp add: valid_channel_def)
  then have "rne (of_int (r1 + r2) * pow2 (- 1)) = of_int (r1 + r2) * pow2 (- 1)"
    by (intro rne_exact) simp_all
  then show ?thesis by (simp add: int_truediv_def pow2_def)
qed

lemma color_distance_total:
  assumes "valid_color c1" and "valid_color c2"
  shows "\<exists>d. color_distance pw c1 c2 = Some d"
proof (cases c1; cases c2)
  fix r1 g1 b1 r2 g2 b2
  assume c: "c1 = (r1, g1, b1)" "c2 = (r2, g2, b2)"
  define rmean :: rat where "rmean = of_int (r1 + r2) / 2"
  have v: "valid_channel r1" "valid_channel r2" using assms c by simp_all
  then have rm: "int_truediv (r1 + r2) 2 = Some rmean"
    unfolding rmean_def by (rule rmean_exact)
  have r0: "0 \<le> rmean" and r255: "rmean \<le> 255"
    using v by (simp_all add: rmean_def valid_channel_def)
  have f256: "float_of_int 256 = 256" and f255: "float_of_int 255 = 255"
    by (simp_all add: float_of_int_exact)
  define w1 where "w1 = rne (rmean / 256)"
  define w3 where "w3 = rne (fsub 255 rmean / 256)"
  have w1: "0 \<le> w1" unfolding w1_def using r0 by (intro rne_nonneg) simp
  have "0 \<le> fsub 255 rmean" unfolding fsub_def using r255 by (intro rne_nonneg) simp
  then have w3: "0 \<le> w3" unfolding w3_def by (intro rne_nonneg) simp
  define total where "total =
    fadd (fadd (fmul (fadd (float_of_int 2) w1) (float_of_int ((r1 - r2) ^ 2)))
               (float_of_int (4 * (g1 - g2) ^ 2)))
         (fmul (fadd (float_of_int 2) w3) (float_of_int ((b1 - b2) ^ 2)))"
  have "0 \<le> total" unfolding total_def using w1 w3
    by (intro fadd_nonneg fmul_nonneg float_of_int_nonneg) simp_all
  then obtain d where "float_pow pw total (lit (5 / 10)) = Some d"
    using float_pow_half_nonneg by blast
  then have "color_distance pw c1 c2 = Some d"
    using c rm by (simp add: fdiv_def f256 f255 w1_def w3_def total_def Let_def)
  then show ?thesis by blast
qed

lemma color_distance_same:
  assumes "valid_color c"
  shows "color_distance pw c c = Some 0"
proof (cases c)
  case (fields r g b)
  then have "valid_channel r" using assms by simp
  then have rm: "int_truediv (r + r) 2 = Some (of_int (r + r) / 2)"
    by (intro rmean_exact)
  have f256: "float_of_int 256 = 256"
    by (simp add: float_of_int_exact)
  show ?thesis
    using fields rm float_pow_half_zero [of pw]
    by (simp add: fdiv_def f256 float_of_int_zero fmul_def fadd_def rne_zero)
qed

lemma libm_ok_sample_pow: "libm_ok sample_pow"
  by (simp add: libm_ok_def sample_pow_def rne_nonneg)

section \<open>The ranked histogram\<close>

lemma Counter_snoc: "Counter (xs @ [x]) = count_elem x (Counter xs)"
  by (simp add: Counter_def)

lemma Counter_Nil: "Counter [] = []"
  by (simp add: Counter_def)

lemma fst_set_count_elem: "fst ` set (count_elem x m) = insert x (fst ` set m)"
  by (induction x m rule: count_elem.induct) auto

lemma distinct_count_elem: "distinct (map fst m) \<Longrightarrow> distinct (map fst (count_elem x m))"
  by (induction x m rule: count_elem.induct) (auto simp: fst_set_count_elem)

lemma map_of_count_elem:
  "map_of (count_elem x m) =
     (map_of m)(x \<mapsto> (case map_of m x of None \<Rightarrow> 1 | Some n \<Rightarrow> n + 1))"
  by (induction x m rule: count_elem.induct) (auto simp: fun_eq_iff)

lemma keys_Counter: "fst ` set (Counter xs) = set xs"
  by (induction xs rule: rev_induct) (auto simp: Counter_Nil Counter_snoc fst_set_count_elem)

lemma distinct_Counter: "distinct (map fst (Counter xs))"
  by (induction xs rule: rev_induct) (simp_all add: Counter_Nil Counter_snoc distinct_count_elem)

lemma map_of_Counter:
  "map_of (Counter xs) k = (if k \<in> set xs then Some (count_list xs k) else None)"
proof (induction xs arbitrary: k rule: rev_induct)
  case Nil
  then show ?case by (simp add: Counter_Nil)
next
  case (snoc x xs)
  then show ?case by (simp add: Counter_snoc map_of_count_elem)
qed

lemma Counter_entry:
  "(k, n) \<in> set (Counter xs) \<Longrightarrow> n = count_list xs k"
proof -
  assume "(k, n) \<in> set (Counter xs)"
  then have "map_of (Counter xs) k = Some n"
    using distinct_Counter [of xs] by simp
  then show ?thesis by (simp add: map_of_Counter split: if_splits)
qed

lemma set_most_common: "set (most_common m) = set m"
  by (simp add: most_common_def)

lemma most_common_Nil_iff: "most_common m = [] \<longleftrightarrow> m = []"
  using set_most_common [of m] by (metis set_empty)

lemma ranked_Nil_iff: "most_common (Counter xs) = [] \<longleftrightarrow> xs = []"
  using keys_Counter [of xs] by (simp add: most_common_Nil_iff) (metis image_is_empty set_empty)

lemma most_common_descending:
  "sorted_wrt (\<lambda>a b. snd b \<le> snd a) (most_common m)"
proof -
  have "sorted (map (\<lambda>kn. - int (snd kn)) (most_common m))"
    unfolding most_common_def by (rule sorted_sort_key)
  then show ?thesis by (simp add: sorted_map sorted_wrt_iff_nth_less)
qed

lemma ranked_head_most_frequent:
  assumes "most_common (Counter xs) = (p, n) # others"
  shows "n = count_list xs p" and "count_list xs c \<le> n"
proof -
  have "(p, n) \<in> set (Counter xs)"
    using assms set_most_common [of "Counter xs"] by (metis list.set_intros(1))
  then show n: "n = count_list xs p" by (rule Counter_entry)
  show "count_list xs c \<le> n"
  proof (cases "c \<in> set xs")
    case True
    then obtain m where m: "(c, m) \<in> set (Counter xs)"
      using keys_Counter [of xs] by force
    then have mc: "m = count_list xs c" by (rule Counter_entry)
    from m have "(c, m) \<in> set ((p, n) # others)"
      using assms set_most_common [of "Counter xs"] by simp
    moreover have "\<forall>kn \<in> set others. snd kn \<le> n"
      using most_common_descending [of "Counter xs"] assms by simp
    ultimately have "m \<le> n" by auto
    then show ?thesis using mc by simp
  next
    case False
    then show ?thesis by (simp add: count_list_0_iff)
  qed
qed

lemma Counter_replicate: "Counter (replicate (Suc n) x) = [(x, Suc n)]"
proof (induction n)
  case 0
  then show ?case by (simp add: Counter_def)
next
  case (Suc n)
  have "replicate (Suc (Suc n)) x = replicate (Suc n) x @ [x]"
    by (metis replicate_Suc replicate_append_same)
  then show ?case using Suc by (simp only: Counter_snoc) simp
qed

section \<open>The loops find the first match\<close>

lemma passes_meets:
  assumes "libm_ok pw" and "valid_color p" and "valid_color c"
  shows "passes pw min_c min_d p c = Some (meets pw min_c min_d p c)"
proof -
  obtain cr where cr: "contrast_ratio pw p c = Some cr"
    using contrast_ratio_total [OF assms] by blast
  obtain d where d: "color_distance pw p c = Some d"
    using color_distance_total [OF assms(2,3)] by blast
  show ?thesis using cr d by (simp add: passes_def meets_def)
qed

lemma scan_find:
  assumes "libm_ok pw" and "valid_color p" and "\<forall>c \<in> set cs. valid_color c"
  shows "scan pw min_c min_d p cs = Some (find (meets pw min_c min_d p) cs)"
  using assms(3)
proof (induction cs)
  case Nil
  then show ?case by simp
next
  case (Cons c cs)
  then have "passes pw min_c min_d p c = Some (meets pw min_c min_d p c)"
    using passes_meets [OF assms(1,2)] by simp
  then show ?case using Cons by simp
qed

lemma lit_half_norm: "lit (1 / 2) = 1 / 2"
  using rne_exact [of 1 "- 1"] by (simp add: lit_def pow2_def)

lemma lit_three_quarters_norm: "lit (3 / 4) = 3 / 4"
  using rne_exact [of 3 "- 2"] by (simp add: lit_def pow2_def)

lemma relaxed_distance: "fmul (float_of_int 80) (lit (5 / 10)) = 40"
proof -
  have "rne (of_int 40) = of_int 40" by (rule rne_of_int) simp
  then show ?thesis by (simp add: fmul_def float_of_int_exact lit_half_norm)
qed

lemma select_secondary_chain:
  assumes "libm_ok pw" and "valid_color p" and "\<forall>c \<in> set cs. valid_color c"
  shows "select_secondary pw (lit 3) 80 p cs = Some (spec_secondary pw p cs)"
proof -
  have "select_secondary pw (lit 3) 80 p cs =
    (case find (meets pw 3 80 p) cs of
       None \<Rightarrow> Some (case find (meets pw 2 40 p) cs of
                      None \<Rightarrow> if 127 < brightness p then (30, 30, 30) else (230, 230, 230)
                    | Some c \<Rightarrow> c)
     | Some c \<Rightarrow> Some c)"
    unfolding select_secondary_def relaxed_distance lit_3 lit_2
    using scan_find [OF assms, of 3 80] scan_find [OF assms, of 2 40]
    by (simp split: option.splits)
  then show ?thesis by (simp add: spec_secondary_def split: option.splits)
qed

lemma valid_quantize_channel: "valid_channel c \<Longrightarrow> valid_channel (quantize_channel 24 c)"
  unfolding valid_channel_def quantize_channel_def by (simp add: min_def) presburger

lemma valid_quantize: "valid_color p \<Longrightarrow> valid_color (quantize p)"
  by (cases p) (simp add: valid_quantize_channel)

lemma ranked_keys:
  "fst ` set (most_common (Counter (map quantize pixels))) = quantize ` set pixels"
  by (simp add: set_most_common keys_Counter)

lemma ranked_valid:
  assumes "\<forall>p \<in> set pixels. valid_color p"
    and "most_common (Counter (map quantize pixels)) = (primary, n) # others"
  shows "valid_color primary" and "\<forall>c \<in> set (map fst others). valid_color c"
proof -
  have "\<forall>c \<in> fst ` set ((primary, n) # others). valid_color c"
    using ranked_keys [of pixels] assms valid_quantize by auto
  then show "valid_color primary" and "\<forall>c \<in> set (map fst others). valid_color c" by auto
qed

section \<open>Formatting and darkening\<close>

declare hex_nat.simps [simp del]

lemma hex_digit_inj: "a < 16 \<Longrightarrow> b < 16 \<Longrightarrow> hex_digit a = hex_digit b \<Longrightarrow> a = b"
proof -
  assume a: "a < 16" and b: "b < 16" and eq: "hex_digit a = hex_digit b"
  have "distinct ''0123456789abcdef''" by simp
  moreover have "a < length ''0123456789abcdef''" "b < length ''0123456789abcdef''"
    using a b by simp_all
  ultimately show "a = b"
    using eq unfolding hex_digit_def by (simp only: nth_eq_iff_index_eq)
qed

lemma hex_digit_0: "hex_digit 0 = CHR ''0''"
  by (simp add: hex_digit_def)

lemma format_02x_valid:
  assumes "valid_channel c"
  shows "format_02x c = [hex_digit (nat c div 16), hex_digit (nat c mod 16)]"
proof (cases "nat c < 16")
  case True
  then have "hex_nat (nat c) = [hex_digit (nat c)]" by (simp add: hex_nat.simps)
  then show ?thesis using True assms by (simp add: format_02x_def valid_channel_def hex_digit_0)
next
  case False
  have "nat c div 16 < 16" using assms by (simp add: valid_channel_def) linarith
  then have "hex_nat (nat c div 16) = [hex_digit (nat c div 16)]" by (simp add: hex_nat.simps)
  then have "hex_nat (nat c) = [hex_digit (nat c div 16), hex_digit (nat c mod 16)]"
    using False by (subst hex_nat.simps) simp
  then show ?thesis using assms by (simp add: format_02x_def valid_channel_def)
qed

lemma format_02x_inj:
  assumes "valid_channel a" and "valid_channel b" and "format_02x a = format_02x b"
  shows "a = b"
proof -
  have lt: "nat a div 16 < 16" "nat b div 16 < 16"
    using assms(1,2) by (simp_all add: valid_channel_def) linarith+
  have "hex_digit (nat a div 16) = hex_digit (nat b div 16)"
    and "hex_digit (nat a mod 16) = hex_digit (nat b mod 16)"
    using assms by (simp_all add: format_02x_valid)
  then have "nat a div 16 = nat b div 16" and "nat a mod 16 = nat b mod 16"
    using lt by (auto intro: hex_digit_inj)
  then have "nat a = nat b" by (metis div_mult_mod_eq)
  then show ?thesis using assms(1,2) unfolding valid_channel_def by linarith
qed

lemma format_color_inj:
  assumes "valid_color c1" and "valid_color c2" and "format_color c1 = format_color c2"
  shows "c1 = c2"
proof (cases c1; cases c2)
  fix r1 g1 b1 r2 g2 b2
  assume c: "c1 = (r1, g1, b1)" "c2 = (r2, g2, b2)"
  then have v: "valid_channel r1" "valid_channel g1" "valid_channel b1"
    "valid_channel r2" "valid_channel g2" "valid_channel b2"
    using assms(1,2) by simp_all
  have "format_02x r1 @ format_02x g1 @ format_02x b1 =
        format_02x r2 @ format_02x g2 @ format_02x b2"
    using assms(3) c by simp
  then have "format_02x r1 = format_02x r2 \<and> format_02x g1 = format_02x g2
      \<and> format_02x b1 = format_02x b2"
    using v by (simp add: format_02x_valid)
  then show ?thesis using v c by (auto dest: format_02x_inj)
qed

lemma darken_channel_eq:
  assumes "\<bar>c\<bar> < 2 ^ 50"
  shows "darken_channel c = max 0 \<lfloor>of_int c * (3 / 4 :: rat)\<rfloor>"
proof -
  have c: "float_of_int c = of_int c" using assms by (intro float_of_int_exact) simp
  have "\<bar>3 * c\<bar> < 2 ^ 53" using assms by simp
  then have "rne (of_int (3 * c) * pow2 (- 2)) = of_int (3 * c) * pow2 (- 2)"
    by (intro rne_exact) simp_all
  moreover have "of_int (3 * c) * pow2 (- 2) = of_int c * (3 / 4 :: rat)"
    by (simp add: pow2_def)
  ultimately have "rne (of_int c * (3 / 4)) = of_int c * (3 / 4)"
    by (simp only:)
  moreover have "lit (75 / 100) = 3 / 4" by (simp add: lit_three_quarters_norm)
  ultimately have "fmul (float_of_int c) (lit (75 / 100)) = of_int c * (3 / 4)"
    using c by (simp only: fmul_def)
  then have "darken_channel c = max 0 (py_int (of_int c * (3 / 4)))"
    by (simp only: darken_channel_def)
  also have "\<dots> = max 0 \<lfloor>of_int c * (3 / 4 :: rat)\<rfloor>"
  proof (cases "0 \<le> c")
    case True
    then show ?thesis by (simp add: py_int_def)
  next
    case False
    then have "of_int c * (3 / 4 :: rat) < 0" by simp
    then have "\<lceil>of_int c * (3 / 4 :: rat)\<rceil> \<le> 0" "\<lfloor>of_int c * (3 / 4 :: rat)\<rfloor> \<le> 0"
      by (simp_all add: ceiling_le_iff floor_le_iff)
    then show ?thesis using False by (simp add: py_int_def)
  qed
  finally show ?thesis .
qed

lemma darken_channel_div: "valid_channel c \<Longrightarrow> darken_channel c = (3 * c) div 4"
proof -
  assume v: "valid_channel c"
  then have "\<bar>c\<bar> < 2 ^ 50" by (simp add: valid_channel_def)
  then have "darken_channel c = max 0 \<lfloor>of_int c * (3 / 4 :: rat)\<rfloor>" by (rule darken_channel_eq)
  moreover have "of_int c * (3 / 4 :: rat) = of_int (3 * c) / of_int 4" by simp
  then have "\<lfloor>of_int c * (3 / 4 :: rat)\<rfloor> = (3 * c) div 4"
    by (simp only: floor_divide_of_int_eq)
  moreover have "0 \<le> (3 * c) div 4" using v unfolding valid_channel_def by presburger
  ultimately show ?thesis by simp
qed

lemma valid_darken_channel: "valid_channel c \<Longrightarrow> valid_channel (darken_channel c)"
  by (simp add: darken_channel_div) (simp add: valid_channel_def, presburger)

lemma valid_darken: "valid_color c \<Longrightarrow> valid_color (darken c)"
  by (cases c) (simp add: valid_darken_channel)

section \<open>Shape of the result\<close>

lemma brightness_black_bucket: "brightness (12, 12, 12) = 12"
  by code_simp

lemma brightness_white_bucket: "brightness (252, 252, 252) = 252"
  by code_simp

lemma select_secondary_no_candidates:
  "select_secondary pw min_c min_d p [] =
     Some (if 127 < brightness p then (30, 30, 30) else (230, 230, 230))"
  by (simp add: select_secondary_def)

lemma extract_colors_nonempty:
  assumes "most_common (Counter (map quantize pixels)) = (primary, n) # others"
    and "select_secondary pw min_c min_d primary (map fst others) = Some secondary"
  shows "extract_colors pw pixels min_c min_d =
     Some (format_color (fst (assign_roles primary secondary)),
           format_color (darken (snd (assign_roles primary secondary))))"
  using assms by (simp add: extract_colors_def Let_def split: prod.splits)

lemma scan_result: "scan pw min_c min_d p cs = Some (Some c) \<Longrightarrow> c \<in> set cs"
  by (induction cs) (auto split: bind_splits if_splits)

lemma select_secondary_result:
  assumes "select_secondary pw min_c min_d p cs = Some s"
  shows "s \<in> set cs \<or> s = (30, 30, 30) \<or> s = (230, 230, 230)"
  using assms scan_result
  by (auto simp: select_secondary_def split: bind_splits option.splits if_splits)

lemma quantize_channel_mod: "valid_channel c \<Longrightarrow> quantize_channel 24 c mod 24 = 12"
  unfolding valid_channel_def quantize_channel_def by (simp add: min_def) presburger

lemma bucket_even: "(r :: int) mod 24 = 12 \<Longrightarrow> even r"
  by presburger

lemma darkened_bucket_odd: "(r :: int) mod 24 = 12 \<Longrightarrow> odd ((3 * r) div 4)"
proof -
  assume "r mod 24 = 12"
  then obtain k where "r = 24 * k + 12" by (metis mult_div_mod_eq)
  then have "(3 * r) div 4 = 2 * (9 * k + 4) + 1" by simp
  then show ?thesis by simp
qed

lemma red_never_darkened_red:
  fixes r1 r2 :: int
  assumes "r1 mod 24 = 12 \<or> r1 = 30 \<or> r1 = 230"
    and "r2 mod 24 = 12 \<or> r2 = 30 \<or> r2 = 230"
  shows "r1 \<noteq> (3 * r2) div 4"
proof -
  have e: "even r1" using assms(1) bucket_even by auto
  from assms(2) show ?thesis
  proof (elim disjE)
    assume "r2 mod 24 = 12"
    then have "odd ((3 * r2) div 4)" by (rule darkened_bucket_odd)
    with e show ?thesis by auto
  next
    assume "r2 = 30"
    then have "(3 * r2) div 4 = 22" by simp
    then show ?thesis using assms(1) by auto
  next
    assume "r2 = 230"
    then have "(3 * r2) div 4 = 172" by simp
    then show ?thesis using assms(1) by auto
  qed
qed

lemma red_shape:
  assumes "valid_color p" and "c = quantize p"
  shows "fst c mod 24 = 12"
  using assms by (cases p) (simp add: quantize_channel_mod)

lemma extract_default_shape:
  assumes "libm_ok pw" and "pixels \<noteq> []" and "\<forall>p \<in> set pixels. valid_color p"
  shows "\<exists>fg bg. extract_colors_default pw pixels = Some (format_color fg, format_color (darken bg))
     \<and> valid_color fg \<and> valid_color bg
     \<and> (fst fg mod 24 = 12 \<or> fst fg = 30 \<or> fst fg = 230)
     \<and> (fst bg mod 24 = 12 \<or> fst bg = 30 \<or> fst bg = 230)"
proof -
  obtain primary n others where
    r: "most_common (Counter (map quantize pixels)) = (primary, n) # others"
    using assms(2) ranked_Nil_iff [of "map quantize pixels"]
    by (cases "most_common (Counter (map quantize pixels))") auto
  have vp: "valid_color primary" and vo: "\<forall>c \<in> set (map fst others). valid_color c"
    using ranked_valid [OF assms(3) r] by blast+
  define s where "s = spec_secondary pw primary (map fst others)"
  have sel: "select_secondary pw (lit 3) 80 primary (map fst others) = Some s"
    unfolding s_def using assms(1) vp vo by (rule select_secondary_chain)
  have keys: "fst ` set ((primary, n) # others) = quantize ` set pixels"
    using ranked_keys [of pixels] r by simp
  have bucket: "fst c mod 24 = 12" if "c \<in> fst ` set ((primary, n) # others)" for c
  proof -
    from that keys obtain p where "p \<in> set pixels" "c = quantize p" by blast
    then show ?thesis using assms(3) red_shape by blast
  qed
  have pshape: "fst primary mod 24 = 12" using bucket by simp
  have scases: "s \<in> set (map fst others) \<or> s = (30, 30, 30) \<or> s = (230, 230, 230)"
    using sel by (rule select_secondary_result)
  have vs: "valid_color s" using scases vo by (auto simp: valid_channel_def)
  have sshape: "fst s mod 24 = 12 \<or> fst s = 30 \<or> fst s = 230"
  proof (cases "s \<in> set (map fst others)")
    case True
    then have "s \<in> fst ` set ((primary, n) # others)" by auto
    then show ?thesis using bucket by blast
  next
    case False
    then show ?thesis using scases by auto
  qed
  have ex: "extract_colors_default pw pixels =
     Some (format_color (fst (assign_roles primary s)),
           format_color (darken (snd (assign_roles primary s))))"
    unfolding extract_colors_default_def using r sel by (rule extract_colors_nonempty)
  show ?thesis
  proof (cases "brightness s \<le> brightness primary")
    case True
    then have "assign_roles primary s = (primary, s)" by (simp add: assign_roles_def)
    then have "extract_colors_default pw pixels =
      Some (format_color primary, format_color (darken s))"
      using ex by simp
    then show ?thesis using vp vs pshape sshape by blast
  next
    case False
    then have "assign_roles primary s = (s, primary)" by (simp add: assign_roles_def)
    then have "extract_colors_default pw pixels =
      Some (format_color s, format_color (darken primary))"
      using ex by simp
    then show ?thesis using vp vs pshape sshape by blast
  qed
qed

lemma fst_darken: "valid_color c \<Longrightarrow> fst (darken c) = (3 * fst c) div 4"
  by (cases c) (simp add: darken_channel_div)

lemma extract_default_distinct:
  assumes "libm_ok pw" and "\<forall>p \<in> set pixels. valid_color p"
  shows "\<exists>fg bg. extract_colors_default pw pixels = Some (fg, bg) \<and> fg \<noteq> bg"
proof (cases "pixels = []")
  case True
  then show ?thesis
    by (simp add: extract_colors_default_def extract_colors_def Counter_def most_common_def)
next
  case False
  from extract_default_shape [OF assms(1) False assms(2)] obtain fg bg where
    ex: "extract_colors_default pw pixels = Some (format_color fg, format_color (darken bg))"
    and v: "valid_color fg" "valid_color bg"
    and sh: "fst fg mod 24 = 12 \<or> fst fg = 30 \<or> fst fg = 230"
      "fst bg mod 24 = 12 \<or> fst bg = 30 \<or> fst bg = 230"
    by blast
  have "fst fg \<noteq> (3 * fst bg) div 4" using sh by (rule red_never_darkened_red)
  then have "fg \<noteq> darken bg" using v(2) fst_darken by metis
  then have "format_color fg \<noteq> format_color (darken bg)"
    using format_color_inj v valid_darken by blast
  then show ?thesis using ex by simp
qed

lemma format_fallback_foreground: "format_color (136, 136, 136) = ''0xff888888''"
  by (simp add: format_02x_valid valid_channel_def hex_digit_def)

lemma extract_default_not_fallback:
  assumes "libm_ok pw" and "pixels \<noteq> []" and "\<forall>p \<in> set pixels. valid_color p"
  shows "\<exists>fg bg. extract_colors_default pw pixels = Some (fg, bg)
     \<and> (fg, bg) \<noteq> (''0xff888888'', ''0xff222222'')"
proof -
  from extract_default_shape [OF assms] obtain fg bg where
    ex: "extract_colors_default pw pixels = Some (format_color fg, format_color (darken bg))"
    and v: "valid_color fg"
    and sh: "fst fg mod 24 = 12 \<or> fst fg = 30 \<or> fst fg = 230"
    by blast
  have "fg \<noteq> (136, 136, 136)" using sh by auto
  moreover have "valid_color (136, 136, 136)" by (simp add: valid_channel_def)
  ultimately have "format_color fg \<noteq> format_color (136, 136, 136)"
    using format_color_inj v by blast
  then show ?thesis using ex format_fallback_foreground by simp
qed

lemma extract_default_roles:
  assumes "libm_ok pw" and "pixels \<noteq> []" and "\<forall>p \<in> set pixels. valid_color p"
  shows "\<exists>primary n others.
     most_common (Counter (map quantize pixels)) = (primary, n) # others
     \<and> valid_color primary
     \<and> valid_color (spec_secondary pw primary (map fst others))
     \<and> select_secondary pw (lit 3) 80 primary (map fst others)
         = Some (spec_secondary pw primary (map fst others))
     \<and> extract_colors_default pw pixels =
         Some (format_color (fst (assign_roles primary (spec_secondary pw primary (map fst others)))),
               format_color (darken (snd (assign_roles primary
                  (spec_secondary pw primary (map fst others))))))"
proof -
  obtain primary n others where
    r: "most_common (Counter (map quantize pixels)) = (primary, n) # others"
    using assms(2) ranked_Nil_iff [of "map quantize pixels"]
    by (cases "most_common (Counter (map quantize pixels))") auto
  have vp: "valid_color primary" and vo: "\<forall>c \<in> set (map fst others). valid_color c"
    using ranked_valid [OF assms(3) r] by blast+
  define s where "s = spec_secondary pw primary (map fst others)"
  have sel: "select_secondary pw (lit 3) 80 primary (map fst others) = Some s"
    unfolding s_def using assms(1) vp vo by (rule select_secondary_chain)
  have "s \<in> set (map fst others) \<or> s = (30, 30, 30) \<or> s = (230, 230, 230)"
    using sel by (rule select_secondary_result)
  then have vs: "valid_color s" using vo by (auto simp: valid_channel_def)
  have "extract_colors_default pw pixels =
     Some (format_color (fst (assign_roles primary s)),
           format_color (darken (snd (assign_roles primary s))))"
    unfolding extract_colors_default_def using r sel by (rule extract_colors_nonempty)
  then show ?thesis using r vp vs sel unfolding s_def by blast
qed

lemma Counter_replicate_pos: "0 < n \<Longrightarrow> Counter (replicate n x) = [(x, n)]"
  using Counter_replicate [of "n - 1" x] by simp

lemma ranked_solid:
  "0 < n \<Longrightarrow> most_common (Counter (map quantize (replicate n p))) = [(quantize p, n)]"
  by (simp add: Counter_replicate_pos most_common_def)

lemma darken_floor:
  assumes "valid_color (r, g, b)"
  shows "darken (r, g, b) =
     (max 0 \<lfloor>of_int r * (3 / 4 :: rat)\<rfloor>, max 0 \<lfloor>of_int g * (3 / 4 :: rat)\<rfloor>,
      max 0 \<lfloor>of_int b * (3 / 4 :: rat)\<rfloor>)"
proof -
  have "\<bar>r\<bar> < 2 ^ 50" "\<bar>g\<bar> < 2 ^ 50" "\<bar>b\<bar> < 2 ^ 50"
    using assms by (simp_all add: valid_channel_def)
  then show ?thesis by (simp only: darken.simps darken_channel_eq)
qed

section \<open>Sampled pixels and solid images\<close>

lemma length_getdata_resize: "length (getdata (resize lib img (w, h))) = w * h"
  by (simp add: getdata_def resize_def length_concat comp_def sum_list_triv)

lemma valid_uint8: "valid_channel (uint (c :: 8 word))"
  using uint_lt2p [of c] by (simp add: valid_channel_def)

lemma valid_getdata: "\<forall>p \<in> set (getdata img). valid_color p"
  by (auto simp: getdata_def valid_uint8)


lemma brightness_light_companion:
  "brightness (230, 230, 230) = 8092405580431359 / 35184372088832"
  by code_simp

lemma brightness_dark_companion: "brightness (30, 30, 30) = 30"
  by code_simp

lemma format_solid_outputs:
  "format_color (230, 230, 230) = ''0xffe6e6e6''" "format_color (9, 9, 9) = ''0xff090909''"
  "format_color (252, 252, 252) = ''0xfffcfcfc''" "format_color (22, 22, 22) = ''0xff161616''"
  by (simp_all add: format_02x_valid valid_channel_def hex_digit_def)

lemma darken_solid:
  "darken (12, 12, 12) = (9, 9, 9)" "darken (30, 30, 30) = (22, 22, 22)"
  by (simp_all add: darken_channel_div valid_channel_def)

section \<open>Quantization\<close>

lemma quantize_channel_idem:
  "0 \<le> c \<Longrightarrow> c \<le> 255 \<Longrightarrow>
   quantize_channel 24 (quantize_channel 24 c) = quantize_channel 24 c"
  unfolding quantize_channel_def by (simp add: min_def) presburger

text \<open>
  C7: with the default step of 24, \<open>quantize\<close> maps each channel \<open>c\<close> on its own to
  \<open>min(255, (c div 24) * 24 + 12)\<close>, and on every triple of 8-bit channel values
  quantizing twice gives the same as quantizing once.
\<close>

theorem quantize_formula_and_idempotent:
  "quantize (r, g, b) =
     (min 255 ((r div 24) * 24 + 12), min 255 ((g div 24) * 24 + 12),
      min 255 ((b div 24) * 24 + 12))
   \<and> (valid_color (r, g, b) \<longrightarrow> quantize (quantize (r, g, b)) = quantize (r, g, b))"
  by (simp add: quantize_channel_def [symmetric] quantize_channel_idem valid_channel_def
      del: One_nat_def) (simp add: quantize_channel_def)

theorem quantize_formula_and_idempotent_witness:
  "quantize (200, 0, 255) = (204, 12, 252)
   \<and> valid_color (200, 0, 255)
   \<and> quantize (quantize (200, 0, 255)) = quantize (200, 0, 255)"
  using quantize_formula_and_idempotent [of 200 0 255]
  by (simp add: valid_channel_def quantize_channel_def)

section \<open>Luminance at the boundaries\<close>

text \<open>
  C8: \<open>relative_luminance(0,0,0)\<close> is exactly \<open>0.0\<close> and
  \<open>relative_luminance(255,255,255)\<close> is exactly \<open>1.0\<close> in binary64 arithmetic,
  whatever the platform's \<open>pow\<close> computes: the three rounded weights add up to 1
  without a rounding error, and \<open>1.0 ** 2.4\<close> never reaches the C library.
\<close>

theorem relative_luminance_boundaries:
  "relative_luminance pw (0, 0, 0) = Some 0 \<and> relative_luminance pw (255, 255, 255) = Some 1"
  by code_simp

section \<open>Identical colors\<close>

text \<open>
  C9: for every 8-bit color \<open>c\<close>, \<open>contrast_ratio(c, c)\<close> is exactly \<open>1.0\<close> and
  \<open>color_distance(c, c)\<close> is exactly \<open>0\<close>, provided the platform's \<open>pow\<close> returns
  no negative value on a positive base (so that the luminance plus \<open>0.05\<close> is not zero).
\<close>

theorem same_color_identities:
  assumes "libm_ok pw" and "valid_color c"
  shows "contrast_ratio pw c c = Some 1 \<and> color_distance pw c c = Some 0"
  using assms by (simp add: contrast_ratio_same color_distance_same)

theorem same_color_identities_witness:
  "libm_ok sample_pow \<and> valid_color (12, 200, 255)
   \<and> contrast_ratio sample_pow (12, 200, 255) (12, 200, 255) = Some 1
   \<and> color_distance sample_pow (12, 200, 255) (12, 200, 255) = Some 0"
proof -
  have v: "valid_color (12, 200, 255)" by (simp add: valid_channel_def)
  show ?thesis
    using same_color_identities [OF libm_ok_sample_pow v] libm_ok_sample_pow v by simp
qed

section \<open>Choice of the secondary color\<close>

text \<open>
  C1: for every non-empty ranked histogram, with the primary color its most frequent
  bucket and the other buckets in descending order of frequency, the two loops and the
  last resort of \<open>extract_colors\<close> choose the secondary color as the chain of the
  specification does: the first remaining bucket with contrast ratio at least 3.0 and
  distance at least 80; failing that, the first one with contrast ratio at least 2.0 and
  distance at least 40; failing that, (30,30,30) when the primary's brightness exceeds
  127 and (230,230,230) otherwise. The pixels are 8-bit and the platform's \<open>pow\<close>
  returns no negative value on a positive base, so that no comparison raises.
\<close>

theorem three_tier_selection:
  assumes "libm_ok pw" and "pixels \<noteq> []" and "\<forall>p \<in> set pixels. valid_color p"
  shows "\<exists>primary n others.
     most_common (Counter (map quantize pixels)) = (primary, n) # others
     \<and> n = count_list (map quantize pixels) primary
     \<and> (\<forall>c. count_list (map quantize pixels) c \<le> n)
     \<and> sorted_wrt (\<lambda>a b. snd b \<le> snd a) others
     \<and> select_secondary pw (lit 3) 80 primary (map fst others)
         = Some (spec_secondary pw primary (map fst others))
     \<and> extract_colors_default pw pixels =
         Some (format_color (fst (assign_roles primary (spec_secondary pw primary (map fst others)))),
               format_color (darken (snd (assign_roles primary
                  (spec_secondary pw primary (map fst others))))))"
proof -
  from extract_default_roles [OF assms] obtain primary n others where
    r: "most_common (Counter (map quantize pixels)) = (primary, n) # others"
    and sel: "select_secondary pw (lit 3) 80 primary (map fst others)
         = Some (spec_secondary pw primary (map fst others))"
    and ex: "extract_colors_default pw pixels =
         Some (format_color (fst (assign_roles primary (spec_secondary pw primary (map fst others)))),
               format_color (darken (snd (assign_roles primary
                  (spec_secondary pw primary (map fst others))))))"
    by blast
  have n: "n = count_list (map quantize pixels) primary"
    and m: "\<forall>c. count_list (map quantize pixels) c \<le> n"
    using ranked_head_most_frequent [OF r] by blast+
  have "sorted_wrt (\<lambda>a b. snd b \<le> snd a) ((primary, n) # others)"
    using most_common_descending [of "Counter (map quantize pixels)"] r by simp
  then have d: "sorted_wrt (\<lambda>a b. snd b \<le> snd a) others" by simp
  show ?thesis using r n m d sel ex by blast
qed


theorem three_tier_selection_witness:
  "libm_ok sample_pow
   \<and> [(0, 0, 0), (255, 255, 255), (0, 0, 0)] \<noteq> ([] :: color list)
   \<and> valid_color (0, 0, 0) \<and> valid_color (255, 255, 255)
   \<and> (\<exists>primary n others.
     most_common (Counter (map quantize [(0, 0, 0), (255, 255, 255), (0, 0, 0)]))
       = (primary, n) # others
     \<and> n = count_list (map quantize [(0, 0, 0), (255, 255, 255), (0, 0, 0)]) primary
     \<and> (\<forall>c. count_list (map quantize [(0, 0, 0), (255, 255, 255), (0, 0, 0)]) c \<le> n)
     \<and> sorted_wrt (\<lambda>a b. snd b \<le> snd a) others
     \<and> select_secondary sample_pow (lit 3) 80 primary (map fst others)
         = Some (spec_secondary sample_pow primary (map fst others))
     \<and> extract_colors_default sample_pow [(0, 0, 0), (255, 255, 255), (0, 0, 0)] =
         Some (format_color (fst (assign_roles primary
                  (spec_secondary sample_pow primary (map fst others)))),
               format_color (darken (snd (assign_roles primary
                  (spec_secondary sample_pow primary (map fst others)))))))"
proof -
  have ne: "[(0, 0, 0), (255, 255, 255), (0, 0, 0)] \<noteq> ([] :: color list)" by simp
  have v0: "valid_color (0, 0, 0)" and v1: "valid_color (255, 255, 255)"
    by (simp_all add: valid_channel_def)
  have v: "\<forall>p \<in> set [(0, 0, 0), (255, 255, 255), (0, 0, 0)]. valid_color p"
    using v0 v1 by simp
  show ?thesis
    using three_tier_selection [OF libm_ok_sample_pow ne v] libm_ok_sample_pow ne v0 v1
    by blast
qed

section \<open>The two outputs\<close>

text \<open>
  C2: for every sequence of 8-bit pixels, the empty one included, \<open>extract_colors\<close>
  returns two hexadecimal strings and they differ. A bucket center is 12 modulo 24 and
  the synthetic colors are 30 and 230, while a darkened bucket center is odd and the
  darkened synthetic colors are 22 and 172: the red channels of the foreground and of
  the darkened background can never agree.
\<close>

theorem output_colors_distinct:
  assumes "libm_ok pw" and "\<forall>p \<in> set pixels. valid_color p"
  shows "\<exists>fg bg. extract_colors_default pw pixels = Some (fg, bg) \<and> fg \<noteq> bg"
  using assms by (rule extract_default_distinct)

theorem output_colors_distinct_witness:
  "libm_ok sample_pow
   \<and> valid_color (0, 0, 0) \<and> valid_color (255, 255, 255)
   \<and> (\<exists>fg bg. extract_colors_default sample_pow [(0, 0, 0), (255, 255, 255), (0, 0, 0)]
          = Some (fg, bg) \<and> fg \<noteq> bg)"
proof -
  have v0: "valid_color (0, 0, 0)" and v1: "valid_color (255, 255, 255)"
    by (simp_all add: valid_channel_def)
  have v: "\<forall>p \<in> set [(0, 0, 0), (255, 255, 255), (0, 0, 0)]. valid_color p"
    using v0 v1 by simp
  show ?thesis
    using output_colors_distinct [OF libm_ok_sample_pow v] libm_ok_sample_pow v0 v1 by blast
qed

text \<open>
  C3: whenever the histogram is not empty, the foreground is the member of the pair
  (primary, secondary) whose brightness is at least the other's, the primary winning a
  tie, so that the foreground is at least as bright as the background before darkening.
\<close>

theorem foreground_is_brighter:
  assumes "libm_ok pw" and "pixels \<noteq> []" and "\<forall>p \<in> set pixels. valid_color p"
  shows "\<exists>primary n others secondary fg bg.
     most_common (Counter (map quantize pixels)) = (primary, n) # others
     \<and> select_secondary pw (lit 3) 80 primary (map fst others) = Some secondary
     \<and> (fg, bg) = (if brightness secondary \<le> brightness primary
                    then (primary, secondary) else (secondary, primary))
     \<and> brightness bg \<le> brightness fg
     \<and> extract_colors_default pw pixels = Some (format_color fg, format_color (darken bg))"
proof -
  from extract_default_roles [OF assms] obtain primary n others where
    r: "most_common (Counter (map quantize pixels)) = (primary, n) # others"
    and sel: "select_secondary pw (lit 3) 80 primary (map fst others)
         = Some (spec_secondary pw primary (map fst others))"
    and ex: "extract_colors_default pw pixels =
         Some (format_color (fst (assign_roles primary (spec_secondary pw primary (map fst others)))),
               format_color (darken (snd (assign_roles primary
                  (spec_secondary pw primary (map fst others))))))"
    by blast
  define s where "s = spec_secondary pw primary (map fst others)"
  define fg where "fg = fst (assign_roles primary s)"
  define bg where "bg = snd (assign_roles primary s)"
  have a: "(fg, bg) = (if brightness s \<le> brightness primary
                    then (primary, s) else (s, primary))"
    by (simp add: fg_def bg_def assign_roles_def)
  then have b: "brightness bg \<le> brightness fg" by (auto split: if_splits)
  have "extract_colors_default pw pixels = Some (format_color fg, format_color (darken bg))"
    using ex by (simp add: fg_def bg_def s_def)
  then show ?thesis using r sel a b unfolding s_def by blast
qed

theorem foreground_is_brighter_witness:
  "libm_ok sample_pow
   \<and> [(0, 0, 0), (255, 255, 255), (0, 0, 0)] \<noteq> ([] :: color list)
   \<and> valid_color (0, 0, 0) \<and> valid_color (255, 255, 255)
   \<and> (\<exists>primary n others secondary fg bg.
     most_common (Counter (map quantize [(0, 0, 0), (255, 255, 255), (0, 0, 0)]))
       = (primary, n) # others
     \<and> select_secondary sample_pow (lit 3) 80 primary (map fst others) = Some secondary
     \<and> (fg, bg) = (if brightness secondary \<le> brightness primary
                    then (primary, secondary) else (secondary, primary))
     \<and> brightness bg \<le> brightness fg
     \<and> extract_colors_default sample_pow [(0, 0, 0), (255, 255, 255), (0, 0, 0)]
         = Some (format_color fg, format_color (darken bg)))"
proof -
  have ne: "[(0, 0, 0), (255, 255, 255), (0, 0, 0)] \<noteq> ([] :: color list)" by simp
  have v0: "valid_color (0, 0, 0)" and v1: "valid_color (255, 255, 255)"
    by (simp_all add: valid_channel_def)
  have v: "\<forall>p \<in> set [(0, 0, 0), (255, 255, 255), (0, 0, 0)]. valid_color p"
    using v0 v1 by simp
  show ?thesis
    using foreground_is_brighter [OF libm_ok_sample_pow ne v] libm_ok_sample_pow ne v0 v1
    by blast
qed

text \<open>
  C4: whenever the histogram is not empty, each channel of the emitted background is
  \<open>max(0, floor(c * 0.75))\<close> of the channel \<open>c\<close> of the background chosen by the
  role assignment, and the emitted foreground is the chosen foreground unchanged; 255
  is darkened to 191 and 0 to 0. The product \<open>c * 0.75\<close> is exact in binary64.
\<close>

theorem background_darkened:
  assumes "libm_ok pw" and "pixels \<noteq> []" and "\<forall>p \<in> set pixels. valid_color p"
  shows "(\<exists>primary n others secondary fr fg fb br bg bb.
     most_common (Counter (map quantize pixels)) = (primary, n) # others
     \<and> select_secondary pw (lit 3) 80 primary (map fst others) = Some secondary
     \<and> assign_roles primary secondary = ((fr, fg, fb), (br, bg, bb))
     \<and> extract_colors_default pw pixels =
         Some (format_color (fr, fg, fb),
               format_color (max 0 \<lfloor>of_int br * (3 / 4 :: rat)\<rfloor>,
                             max 0 \<lfloor>of_int bg * (3 / 4 :: rat)\<rfloor>,
                             max 0 \<lfloor>of_int bb * (3 / 4 :: rat)\<rfloor>)))
   \<and> darken_channel 255 = 191 \<and> darken_channel 0 = 0"
proof -
  from extract_default_roles [OF assms] obtain primary n others where
    r: "most_common (Counter (map quantize pixels)) = (primary, n) # others"
    and vp: "valid_color primary"
    and vs: "valid_color (spec_secondary pw primary (map fst others))"
    and sel: "select_secondary pw (lit 3) 80 primary (map fst others)
         = Some (spec_secondary pw primary (map fst others))"
    and ex: "extract_colors_default pw pixels =
         Some (format_color (fst (assign_roles primary (spec_secondary pw primary (map fst others)))),
               format_color (darken (snd (assign_roles primary
                  (spec_secondary pw primary (map fst others))))))"
    by blast
  define s where "s = spec_secondary pw primary (map fst others)"
  obtain fr fg fb br bg bb where a: "assign_roles primary s = ((fr, fg, fb), (br, bg, bb))"
    by (metis prod_cases3 surj_pair)
  have "(br, bg, bb) = primary \<or> (br, bg, bb) = s"
    using a by (auto simp: assign_roles_def split: if_splits)
  then have "valid_color (br, bg, bb)" using vp vs unfolding s_def by metis
  then have d: "darken (br, bg, bb) =
     (max 0 \<lfloor>of_int br * (3 / 4 :: rat)\<rfloor>, max 0 \<lfloor>of_int bg * (3 / 4 :: rat)\<rfloor>,
      max 0 \<lfloor>of_int bb * (3 / 4 :: rat)\<rfloor>)"
    by (rule darken_floor)
  have "extract_colors_default pw pixels =
         Some (format_color (fr, fg, fb),
               format_color (max 0 \<lfloor>of_int br * (3 / 4 :: rat)\<rfloor>,
                             max 0 \<lfloor>of_int bg * (3 / 4 :: rat)\<rfloor>,
                             max 0 \<lfloor>of_int bb * (3 / 4 :: rat)\<rfloor>))"
    using ex a d unfolding s_def by (simp only: fst_conv snd_conv)
  then have "\<exists>primary n others secondary fr fg fb br bg bb.
     most_common (Counter (map quantize pixels)) = (primary, n) # others
     \<and> select_secondary pw (lit 3) 80 primary (map fst others) = Some secondary
     \<and> assign_roles primary secondary = ((fr, fg, fb), (br, bg, bb))
     \<and> extract_colors_default pw pixels =
         Some (format_color (fr, fg, fb),
               format_color (max 0 \<lfloor>of_int br * (3 / 4 :: rat)\<rfloor>,
                             max 0 \<lfloor>of_int bg * (3 / 4 :: rat)\<rfloor>,
                             max 0 \<lfloor>of_int bb * (3 / 4 :: rat)\<rfloor>))"
    using r sel a unfolding s_def by blast
  moreover have "darken_channel 255 = 191" "darken_channel 0 = 0"
    by (simp_all add: darken_channel_div valid_channel_def)
  ultimately show ?thesis by blast
qed

theorem background_darkened_witness:
  "libm_ok sample_pow
   \<and> [(0, 0, 0), (255, 255, 255), (0, 0, 0)] \<noteq> ([] :: color list)
   \<and> valid_color (0, 0, 0) \<and> valid_color (255, 255, 255)
   \<and> (\<exists>primary n others secondary fr fg fb br bg bb.
     most_common (Counter (map quantize [(0, 0, 0), (255, 255, 255), (0, 0, 0)]))
       = (primary, n) # others
     \<and> select_secondary sample_pow (lit 3) 80 primary (map fst others) = Some secondary
     \<and> assign_roles primary secondary = ((fr, fg, fb), (br, bg, bb))
     \<and> extract_colors_default sample_pow [(0, 0, 0), (255, 255, 255), (0, 0, 0)] =
         Some (format_color (fr, fg, fb),
               format_color (max 0 \<lfloor>of_int br * (3 / 4 :: rat)\<rfloor>,
                             max 0 \<lfloor>of_int bg * (3 / 4 :: rat)\<rfloor>,
                             max 0 \<lfloor>of_int bb * (3 / 4 :: rat)\<rfloor>)))
   \<and> darken_channel 255 = 191 \<and> darken_channel 0 = 0"
proof -
  have ne: "[(0, 0, 0), (255, 255, 255), (0, 0, 0)] \<noteq> ([] :: color list)" by simp
  have v0: "valid_color (0, 0, 0)" and v1: "valid_color (255, 255, 255)"
    by (simp_all add: valid_channel_def)
  have v: "\<forall>p \<in> set [(0, 0, 0), (255, 255, 255), (0, 0, 0)]. valid_color p"
    using v0 v1 by simp
  show ?thesis
    using background_darkened [OF libm_ok_sample_pow ne v] libm_ok_sample_pow ne v0 v1
    by blast
qed

section \<open>Solid images\<close>

text \<open>
  C5: on 6400 sampled pixels (0,0,0), \<open>extract_colors\<close> ranks one bucket, (12,12,12)
  with count 6400, so that the loops run over no remaining candidate: the strict and the
  relaxed loop both end without a match, the secondary color is the synthetic
  (230,230,230), and the function returns \<open>0xffe6e6e6\<close> (the synthetic color, as
  foreground) and \<open>0xff090909\<close> (the darkened bucket). On 6400 pixels (255,255,255)
  the one bucket is (252,252,252), the secondary color the synthetic (30,30,30), and the
  function returns \<open>0xfffcfcfc\<close> and \<open>0xff161616\<close> (the darkened synthetic color).
  This holds whatever the platform's \<open>pow\<close> computes.
\<close>

theorem solid_images_synthetic:
  "(let ranked = most_common (Counter (map quantize (replicate 6400 (0, 0, 0)))) in
      ranked = [((12, 12, 12), 6400)]
      \<and> scan pw (lit 3) 80 (fst (hd ranked)) (map fst (tl ranked)) = Some None
      \<and> scan pw (lit 2) (fmul (float_of_int 80) (lit (5 / 10))) (fst (hd ranked))
            (map fst (tl ranked)) = Some None
      \<and> select_secondary pw (lit 3) 80 (fst (hd ranked)) (map fst (tl ranked))
          = Some (230, 230, 230))
   \<and> extract_colors_default pw (replicate 6400 (0, 0, 0))
       = Some (format_color (230, 230, 230), format_color (darken (12, 12, 12)))
   \<and> extract_colors_default pw (replicate 6400 (0, 0, 0)) = Some (''0xffe6e6e6'', ''0xff090909'')
   \<and> (let ranked = most_common (Counter (map quantize (replicate 6400 (255, 255, 255)))) in
      ranked = [((252, 252, 252), 6400)]
      \<and> scan pw (lit 3) 80 (fst (hd ranked)) (map fst (tl ranked)) = Some None
      \<and> scan pw (lit 2) (fmul (float_of_int 80) (lit (5 / 10))) (fst (hd ranked))
            (map fst (tl ranked)) = Some None
      \<and> select_secondary pw (lit 3) 80 (fst (hd ranked)) (map fst (tl ranked))
          = Some (30, 30, 30))
   \<and> extract_colors_default pw (replicate 6400 (255, 255, 255))
       = Some (format_color (252, 252, 252), format_color (darken (30, 30, 30)))
   \<and> extract_colors_default pw (replicate 6400 (255, 255, 255))
       = Some (''0xfffcfcfc'', ''0xff161616'')"
proof -
  have rb: "most_common (Counter (map quantize (replicate 6400 (0, 0, 0)))) = [((12, 12, 12), 6400)]"
    using ranked_solid [of 6400 "(0, 0, 0)"] by (simp add: quantize_channel_def)
  have rw: "most_common (Counter (map quantize (replicate 6400 (255, 255, 255))))
       = [((252, 252, 252), 6400)]"
    using ranked_solid [of 6400 "(255, 255, 255)"] by (simp add: quantize_channel_def)
  have sb: "select_secondary pw (lit 3) 80 (12, 12, 12) (map fst []) = Some (230, 230, 230)"
    by (simp add: select_secondary_no_candidates brightness_black_bucket del: brightness.simps)
  have sw: "select_secondary pw (lit 3) 80 (252, 252, 252) (map fst []) = Some (30, 30, 30)"
    by (simp add: select_secondary_no_candidates brightness_white_bucket del: brightness.simps)
  have ab: "assign_roles (12, 12, 12) (230, 230, 230) = ((230, 230, 230), (12, 12, 12))"
    by (simp add: assign_roles_def brightness_black_bucket brightness_light_companion
        del: brightness.simps)
  have aw: "assign_roles (252, 252, 252) (30, 30, 30) = ((252, 252, 252), (30, 30, 30))"
    by (simp add: assign_roles_def brightness_white_bucket brightness_dark_companion
        del: brightness.simps)
  have eb: "extract_colors_default pw (replicate 6400 (0, 0, 0))
       = Some (format_color (230, 230, 230), format_color (darken (12, 12, 12)))"
    using extract_colors_nonempty [OF rb sb] ab
    by (simp only: extract_colors_default_def fst_conv snd_conv)
  have ew: "extract_colors_default pw (replicate 6400 (255, 255, 255))
       = Some (format_color (252, 252, 252), format_color (darken (30, 30, 30)))"
    using extract_colors_nonempty [OF rw sw] aw
    by (simp only: extract_colors_default_def fst_conv snd_conv)
  have eb': "extract_colors_default pw (replicate 6400 (0, 0, 0)) = Some (''0xffe6e6e6'', ''0xff090909'')"
    using eb by (simp only: darken_solid format_solid_outputs)
  have ew': "extract_colors_default pw (replicate 6400 (255, 255, 255))
       = Some (''0xfffcfcfc'', ''0xff161616'')"
    using ew by (simp only: darken_solid format_solid_outputs)
  have lb: "(let ranked = most_common (Counter (map quantize (replicate 6400 (0, 0, 0)))) in
      ranked = [((12, 12, 12), 6400)]
      \<and> scan pw (lit 3) 80 (fst (hd ranked)) (map fst (tl ranked)) = Some None
      \<and> scan pw (lit 2) (fmul (float_of_int 80) (lit (5 / 10))) (fst (hd ranked))
            (map fst (tl ranked)) = Some None
      \<and> select_secondary pw (lit 3) 80 (fst (hd ranked)) (map fst (tl ranked))
          = Some (230, 230, 230))"
    unfolding Let_def rb using sb by simp
  have lw: "(let ranked = most_common (Counter (map quantize (replicate 6400 (255, 255, 255)))) in
      ranked = [((252, 252, 252), 6400)]
      \<and> scan pw (lit 3) 80 (fst (hd ranked)) (map fst (tl ranked)) = Some None
      \<and> scan pw (lit 2) (fmul (float_of_int 80) (lit (5 / 10))) (fst (hd ranked))
            (map fst (tl ranked)) = Some None
      \<and> select_secondary pw (lit 3) 80 (fst (hd ranked)) (map fst (tl ranked))
          = Some (30, 30, 30))"
    unfolding Let_def rw using sw by simp
  show ?thesis using lb eb eb' lw ew ew' by (intro conjI)
qed

section \<open>The empty histogram\<close>

text \<open>
  C6: when the ranked histogram is empty, \<open>extract_colors\<close> returns the pair
  \<open>0xff888888\<close>, \<open>0xff222222\<close> as it stands, whatever the thresholds and the
  platform's \<open>pow\<close>: no role is assigned, nothing is darkened, and no exception is
  raised. The histogram is empty only for an empty pixel sequence.
\<close>

theorem empty_histogram_fallback:
  assumes "most_common (Counter (map quantize pixels)) = []"
  shows "extract_colors pw pixels min_contrast min_distance
           = Some (''0xff888888'', ''0xff222222'')
         \<and> pixels = []"
  using assms ranked_Nil_iff [of "map quantize pixels"]
  by (simp add: extract_colors_def)

theorem empty_histogram_fallback_witness:
  "most_common (Counter (map quantize [])) = []
   \<and> extract_colors sample_pow [] (lit 3) 80 = Some (''0xff888888'', ''0xff222222'')
   \<and> ([] :: color list) = []"
proof -
  have h: "most_common (Counter (map quantize [])) = []"
    by (simp add: Counter_def most_common_def)
  show ?thesis
    using empty_histogram_fallback [OF h, of sample_pow "lit 3" 80] h by simp
qed

text \<open>
  C10: for every image file that the library opens and decodes, the call
  \<open>img.resize((80, 80))\<close> yields 80 * 80 = 6400 pixels of the mode RGB, so the ranked
  histogram is not empty and the result of the function is not the hardcoded pair of the
  empty case: the foreground is a bucket center or a synthetic color, never
  (136,136,136).
\<close>

theorem fallback_unreachable:
  assumes "libm_ok pw" and "open_image lib image_path = Some raw"
  shows "length (getdata (resize lib (convert_rgb lib raw) (80, 80))) = 6400
     \<and> most_common (Counter (map quantize (getdata (resize lib (convert_rgb lib raw) (80, 80)))))
         \<noteq> []
     \<and> extract_colors_of_path lib pw image_path (lit 3) 80
         = extract_colors_default pw (getdata (resize lib (convert_rgb lib raw) (80, 80)))
     \<and> (\<exists>fg bg. extract_colors_of_path lib pw image_path (lit 3) 80 = Some (fg, bg)
           \<and> (fg, bg) \<noteq> (''0xff888888'', ''0xff222222''))"
proof -
  define pixels where "pixels = getdata (resize lib (convert_rgb lib raw) (80, 80))"
  have len: "length pixels = 6400"
    unfolding pixels_def by (simp add: length_getdata_resize)
  then have ne: "pixels \<noteq> []" by auto
  then have r: "most_common (Counter (map quantize pixels)) \<noteq> []"
    by (simp add: ranked_Nil_iff)
  have v: "\<forall>p \<in> set pixels. valid_color p"
    unfolding pixels_def by (rule valid_getdata)
  have e: "extract_colors_of_path lib pw image_path (lit 3) 80 = extract_colors_default pw pixels"
    using assms(2)
    by (simp add: extract_colors_of_path_def extract_colors_default_def pixels_def Let_def)
  from extract_default_not_fallback [OF assms(1) ne v] e
  have "\<exists>fg bg. extract_colors_of_path lib pw image_path (lit 3) 80 = Some (fg, bg)
           \<and> (fg, bg) \<noteq> (''0xff888888'', ''0xff222222'')"
    by simp
  then show ?thesis using len r e unfolding pixels_def by blast
qed

theorem fallback_unreachable_witness:
  "libm_ok sample_pow
   \<and> open_image sample_pil ''cover.png'' = Some ()
   \<and> length (getdata (resize sample_pil (convert_rgb sample_pil ()) (80, 80))) = 6400
   \<and> most_common (Counter (map quantize
         (getdata (resize sample_pil (convert_rgb sample_pil ()) (80, 80))))) \<noteq> []
   \<and> extract_colors_of_path sample_pil sample_pow ''cover.png'' (lit 3) 80
       = extract_colors_default sample_pow
           (getdata (resize sample_pil (convert_rgb sample_pil ()) (80, 80)))
   \<and> (\<exists>fg bg. extract_colors_of_path sample_pil sample_pow ''cover.png'' (lit 3) 80
                 = Some (fg, bg)
           \<and> (fg, bg) \<noteq> (''0xff888888'', ''0xff222222''))"
proof -
  have o: "open_image sample_pil ''cover.png'' = Some ()" by (simp add: sample_pil_def)
  show ?thesis
    using fallback_unreachable [OF libm_ok_sample_pow o] libm_ok_sample_pow o by blast
qed

end
